theory Spec2Isabelle
  imports Main "HOL-Library.Multiset" "HOL-Library.Char_ord" "HOL-Library.List_Lexorder"
begin

section \<open>Data model\<close>

text \<open>
  The package \<^verbatim>\<open>registry\<close> (file \<^verbatim>\<open>registry/registry.go\<close>) uses the types
  \<^verbatim>\<open>Repository\<close>, \<^verbatim>\<open>Image\<close>, \<^verbatim>\<open>Remote\<close> and \<^verbatim>\<open>RemoteClientFactory\<close>, which are
  declared in other files of the package. Of each, the model keeps what
  \<^verbatim>\<open>registry.go\<close> reads or calls.

  A Go \<^verbatim>\<open>error\<close> is an opaque value; \<^verbatim>\<open>nil\<close> is \<open>None\<close>. A Go function returning
  \<^verbatim>\<open>(v, err)\<close> returns a pair here, as in the source. A \<^verbatim>\<open>nil\<close> slice and a slice of
  length zero are both the empty list.
\<close>

datatype error = Error string

text \<open>
  A \<^verbatim>\<open>time.Time\<close> is read through \<^verbatim>\<open>Equal\<close> and \<^verbatim>\<open>After\<close> only, which compare the
  instants; an instant is a number of nanoseconds.
\<close>

type_synonym time = int

definition Equal :: "time \<Rightarrow> time \<Rightarrow> bool" where
  "Equal t u = (t = u)"

definition After :: "time \<Rightarrow> time \<Rightarrow> bool" where
  "After t u = (u < t)"

text \<open>
  Modelled from the spec: the struct \<^verbatim>\<open>Repository\<close> (host, namespace and name; its
  method \<^verbatim>\<open>Host()\<close> is the field) and the struct \<^verbatim>\<open>Image\<close> (a digest, an optional
  creation time \<^verbatim>\<open>CreatedAt *time.Time\<close>, and the full name its method
  \<^verbatim>\<open>String()\<close> prints).
\<close>

record Repository =
  Host :: string
  Namespace :: string
  Name :: string

record Image =
  Digest :: string
  CreatedAt :: "time option"
  FullName :: string

definition String_Image :: "Image \<Rightarrow> string" where
  "String_Image im = FullName im"

text \<open>The zero value \<^verbatim>\<open>Image{}\<close>.\<close>

definition zero_Image :: Image where
  "zero_Image = \<lparr>Digest = [], CreatedAt = None, FullName = []\<rparr>"

section \<open>The ordering policy: \<^verbatim>\<open>byCreatedDesc\<close>\<close>

text \<open>
  \<^verbatim>\<open>func (is byCreatedDesc) Less(i, j int) bool\<close>. Indexing a slice out of range
  panics: the result is \<open>None\<close> then. \<^verbatim>\<open>is[j]\<close> is first read in the second test, so
  an image without creation time at \<^verbatim>\<open>i\<close> answers before \<^verbatim>\<open>j\<close> is looked at. Go compares
  strings with \<^verbatim>\<open><\<close> byte by byte, which is the lexicographic order of \<open>char list\<close>.
\<close>

definition Less :: "Image list \<Rightarrow> nat \<Rightarrow> nat \<Rightarrow> bool option" where
  "Less imgs i j =
     (if length imgs \<le> i then None
      else case CreatedAt (imgs ! i) of
        None \<Rightarrow> Some True
      | Some ti \<Rightarrow>
          (if length imgs \<le> j then None
           else case CreatedAt (imgs ! j) of
             None \<Rightarrow> Some False
           | Some tj \<Rightarrow>
               (if Equal ti tj
                then Some (String_Image (imgs ! i) < String_Image (imgs ! j))
                else Some (After ti tj))))"

section \<open>Collaborators and effects\<close>

text \<open>
  A \<^verbatim>\<open>Remote\<close> is an interface with the methods \<^verbatim>\<open>Tags\<close>, \<^verbatim>\<open>Manifest\<close> and
  \<^verbatim>\<open>Cancel\<close>; a \<^verbatim>\<open>RemoteClientFactory\<close> has \<^verbatim>\<open>CreateFor\<close>. What they answer is
  given by functions. That they were called is recorded in a trace of events, in
  program order: \<^verbatim>\<open>Cancel\<close> and \<^verbatim>\<open>Logger.Log\<close> return nothing and are events only.
  \<open>Go t\<close> is the statement \<^verbatim>\<open>go func(t string){...}(tag)\<close>, \<open>Receive\<close> is one
  \<^verbatim>\<open>res := <-fetched\<close>.
\<close>

record Remote =
  Tags :: "Repository \<Rightarrow> string list \<times> error option"
  Manifest :: "Repository \<Rightarrow> string \<Rightarrow> Image \<times> error option"

record RemoteClientFactory =
  CreateFor :: "string \<Rightarrow> Remote \<times> error option"

record registry =
  factory :: RemoteClientFactory

datatype event =
    CallCreateFor string
  | CallTags Repository
  | CallManifest Repository string
  | CallLog error
  | CallCancel
  | Go string
  | Receive

text \<open>The tags of the \<^verbatim>\<open>Manifest\<close> calls of a trace, and of its \<^verbatim>\<open>go\<close> statements.\<close>

fun manifest_calls :: "event list \<Rightarrow> string list" where
  "manifest_calls [] = []"
| "manifest_calls (CallManifest r t # es) = t # manifest_calls es"
| "manifest_calls (e # es) = manifest_calls es"

fun dispatched :: "event list \<Rightarrow> string list" where
  "dispatched [] = []"
| "dispatched (Go t # es) = t # dispatched es"
| "dispatched (e # es) = dispatched es"

text \<open>
  Modelled from the spec: \<^verbatim>\<open>NewInstrumentedRemote\<close> (its source is in another file of
  the package). The decorator forwards every operation to the \<^verbatim>\<open>Remote\<close> it wraps
  and changes no input, output or error; the metrics it emits are a side channel
  and are left out, so the \<^verbatim>\<open>Metrics\<close> argument is too.
\<close>

definition NewInstrumentedRemote :: "Remote \<Rightarrow> Remote" where
  "NewInstrumentedRemote rem =
     \<lparr>Tags = (\<lambda>r. Tags rem r), Manifest = (\<lambda>r t. Manifest rem r t)\<rparr>"

section \<open>The registry\<close>

text \<open>\<^verbatim>\<open>func (reg *registry) newRemote(img Repository) (rem Remote, err error)\<close>\<close>

definition newRemote :: "registry \<Rightarrow> Repository \<Rightarrow> (Remote \<times> error option) \<times> event list" where
  "newRemote reg img =
     (let (rem, err) = CreateFor (factory reg) (Host img);
          tr = [CallCreateFor (Host img)]
      in if err \<noteq> None then ((rem, err), tr)
         else ((NewInstrumentedRemote rem, err), tr))"

text \<open>
  The order in which the goroutines of \<^verbatim>\<open>tagsToRepository\<close> send their results is
  the scheduler's choice. A schedule is a list of picks: each pick selects, among
  the goroutines that have not sent yet (in dispatch order), the one that sends
  next; when the picks run out the rest send in dispatch order. So every schedule
  is an order of arrival of all results, and every order of arrival has a schedule
  (lemma \<open>arrange_any_order\<close>).
\<close>

fun arrange :: "nat list \<Rightarrow> 'a list \<Rightarrow> 'a list" where
  "arrange ps [] = []"
| "arrange [] (x # xs) = x # xs"
| "arrange (p # ps) (x # xs) =
     (let k = p mod length (x # xs)
      in (x # xs) ! k # arrange ps (take k (x # xs) @ drop (Suc k) (x # xs)))"

text \<open>\<^verbatim>\<open>type result struct { image Image; err error }\<close>\<close>

record result =
  image_res :: Image
  err_res :: "error option"

text \<open>
  The body of one goroutine: the \<^verbatim>\<open>Manifest\<close> call, the log line when it failed, and
  the result it sends. The channel has room for \<^verbatim>\<open>len(tags)\<close> results, so the send
  never blocks.
\<close>

definition fetch :: "Remote \<Rightarrow> Repository \<Rightarrow> string \<Rightarrow> result \<times> event list" where
  "fetch remote repository t =
     (let (image, err) = Manifest remote repository t
      in (\<lparr>image_res = image, err_res = err\<rparr>,
          CallManifest repository t # (case err of None \<Rightarrow> [] | Some e \<Rightarrow> [CallLog e])))"

text \<open>
  The gather loop \<^verbatim>\<open>for i := 0; i < cap(fetched); i++\<close>. \<open>fetched\<close> holds what the
  goroutines send, in order of arrival, each result with the calls its goroutine
  made before sending; these enter the trace when the result is received (they
  happened before). A receive from a channel that nobody will send on blocks for
  ever: \<open>None\<close>. \<open>Inl e\<close> is the \<^verbatim>\<open>return nil, res.err\<close> inside the loop, \<open>Inr images\<close>
  is the loop running to its end.

  All the goroutines were started before the loop, and each makes its \<^verbatim>\<open>Manifest\<close>
  call (and logs when it failed) whatever the loop does. So when the loop returns
  at an error, the calls of the goroutines whose results are still to arrive
  (\<open>rest\<close>) enter the trace as well, in order of arrival, although no result of
  theirs is received.
\<close>

fun gather ::
  "(result \<times> event list) list \<Rightarrow> nat \<Rightarrow> nat \<Rightarrow> Image list \<Rightarrow> event list
     \<Rightarrow> ((error + Image list) \<times> event list) option" where
  "gather fetched cap i images tr =
     (if i < cap then
        (case fetched of
           [] \<Rightarrow> None
         | (res, evs) # rest \<Rightarrow>
             (case err_res res of
                Some e \<Rightarrow> Some (Inl e, tr @ evs @ [Receive] @ concat (map snd rest))
              | None \<Rightarrow>
                  gather rest cap (i + 1) (images[i := image_res res]) (tr @ evs @ [Receive])))
      else Some (Inr images, tr))"

text \<open>
  \<^verbatim>\<open>func (reg *registry) tagsToRepository(remote Remote, repository Repository,
  tags []string) ([]Image, error)\<close>. The deferred \<^verbatim>\<open>remote.Cancel()\<close> runs at either
  return. \<^verbatim>\<open>sort.Sort\<close> is the standard library's: it is the parameter \<open>sort_Sort\<close>,
  given the \<^verbatim>\<open>Less\<close> of \<^verbatim>\<open>byCreatedDesc\<close>. \<open>picks\<close> is the schedule.
\<close>

definition tagsToRepository ::
  "((Image list \<Rightarrow> nat \<Rightarrow> nat \<Rightarrow> bool option) \<Rightarrow> Image list \<Rightarrow> Image list) \<Rightarrow> nat list
     \<Rightarrow> Remote \<Rightarrow> Repository \<Rightarrow> string list
     \<Rightarrow> ((Image list \<times> error option) \<times> event list) option" where
  "tagsToRepository sort_Sort picks remote repository tags =
     (let cap = length tags;
          fetched = map (fetch remote repository) (arrange picks tags)
      in case gather fetched cap 0 (replicate cap zero_Image) (map Go tags) of
           None \<Rightarrow> None
         | Some (Inl e, tr) \<Rightarrow> Some (([], Some e), tr @ [CallCancel])
         | Some (Inr images, tr) \<Rightarrow> Some ((sort_Sort Less images, None), tr @ [CallCancel]))"

text \<open>\<^verbatim>\<open>func (reg *registry) GetRepository(img Repository) (_ []Image, err error)\<close>\<close>

definition GetRepository ::
  "((Image list \<Rightarrow> nat \<Rightarrow> nat \<Rightarrow> bool option) \<Rightarrow> Image list \<Rightarrow> Image list) \<Rightarrow> nat list
     \<Rightarrow> registry \<Rightarrow> Repository
     \<Rightarrow> ((Image list \<times> error option) \<times> event list) option" where
  "GetRepository sort_Sort picks reg img =
     (let ((rem, err), tr) = newRemote reg img
      in if err \<noteq> None then Some (([], err), tr)
         else
           (let (tags, err) = Tags rem img;
                tr = tr @ [CallTags img]
            in if err \<noteq> None then Some (([], err), tr @ [CallCancel])
               else
                 (case tagsToRepository sort_Sort picks rem img tags of
                    None \<Rightarrow> None
                  | Some (ret, tr') \<Rightarrow> Some (ret, tr @ tr'))))"

text \<open>\<^verbatim>\<open>func (reg *registry) GetImage(img Repository, tag string) (_ Image, err error)\<close>\<close>

definition GetImage ::
  "registry \<Rightarrow> Repository \<Rightarrow> string \<Rightarrow> (Image \<times> error option) \<times> event list" where
  "GetImage reg img tag =
     (let ((rem, err), tr) = newRemote reg img
      in if err \<noteq> None then ((zero_Image, err), tr)
         else (Manifest rem img tag, tr @ [CallManifest img tag]))"

text \<open>
  An instance of \<open>sort_Sort\<close>: insertion sort, which is what \<^verbatim>\<open>sort.Sort\<close> runs on
  short slices. It asks \<open>lt\<close> about two adjacent elements.
\<close>

fun insert_by ::
  "(Image list \<Rightarrow> nat \<Rightarrow> nat \<Rightarrow> bool option) \<Rightarrow> Image \<Rightarrow> Image list \<Rightarrow> Image list" where
  "insert_by lt x [] = [x]"
| "insert_by lt x (y # ys) =
     (if lt [y, x] 1 0 = Some True then x # y # ys else y # insert_by lt x ys)"

definition insertion_sort ::
  "(Image list \<Rightarrow> nat \<Rightarrow> nat \<Rightarrow> bool option) \<Rightarrow> Image list \<Rightarrow> Image list" where
  "insertion_sort lt xs = foldr (insert_by lt) xs []"

text \<open>
  The events of receiving, one after the other, the results of the successful
  fetches of the tags \<open>ts\<close>: each \<^verbatim>\<open>Manifest\<close> call happened before its result was
  received.
\<close>

definition received :: "Repository \<Rightarrow> string list \<Rightarrow> event list" where
  "received repository ts = concat (map (\<lambda>t. [CallManifest repository t, Receive]) ts)"

text \<open>
  The calls of the goroutines of the tags \<open>ts\<close> when their results are not
  received: the \<^verbatim>\<open>Manifest\<close> call of each, and its log line when it failed.
\<close>

definition unreceived :: "Remote \<Rightarrow> Repository \<Rightarrow> string list \<Rightarrow> event list" where
  "unreceived remote repository ts = concat (map (\<lambda>t. snd (fetch remote repository t)) ts)"

text \<open>
  What is assumed of \<^verbatim>\<open>sort.Sort\<close>: it rearranges the slice through \<^verbatim>\<open>Swap\<close> only,
  so whatever \<^verbatim>\<open>Less\<close> answers, the result has the elements of the argument, each as
  often.
\<close>

definition sorts_by_swaps ::
  "((Image list \<Rightarrow> nat \<Rightarrow> nat \<Rightarrow> bool option) \<Rightarrow> Image list \<Rightarrow> Image list) \<Rightarrow> bool" where
  "sorts_by_swaps sort_Sort = (\<forall>lt xs. mset (sort_Sort lt xs) = mset xs)"

section \<open>Example inputs\<close>

text \<open>
  A repository, and remotes that list the given tags and fail the manifest fetch
  of the tags in \<open>failing\<close>; a registry whose factory hands out the given remote
  and error.
\<close>

definition example_repository :: Repository where
  "example_repository = \<lparr>Host = ''quay.io'', Namespace = ''foo'', Name = ''helloworld''\<rparr>"

definition example_image :: "string \<Rightarrow> time \<Rightarrow> Image" where
  "example_image n t = \<lparr>Digest = ''sha256:'' @ n, CreatedAt = Some t, FullName = ''quay.io/foo/helloworld:'' @ n\<rparr>"

definition example_remote :: "string list \<times> error option \<Rightarrow> string list \<Rightarrow> Remote" where
  "example_remote tags failing =
     \<lparr>Tags = (\<lambda>r. tags),
      Manifest = (\<lambda>r t. if t \<in> set failing then (zero_Image, Some (Error (''no manifest for '' @ t)))
                          else (example_image t (int (length t)), None))\<rparr>"

definition example_registry :: "Remote \<Rightarrow> error option \<Rightarrow> registry" where
  "example_registry rem err = \<lparr>factory = \<lparr>CreateFor = (\<lambda>h. (rem, err))\<rparr>\<rparr>"

definition remote_ok :: Remote where
  "remote_ok = example_remote ([''v1'', ''latest''], None) []"

definition remote_v1_fails :: Remote where
  "remote_v1_fails = example_remote ([''v1'', ''latest''], None) [''v1'']"

definition remote_all_fail :: Remote where
  "remote_all_fail = example_remote ([''v1'', ''latest''], None) [''v1'', ''latest'']"

definition remote_no_tags :: Remote where
  "remote_no_tags = example_remote ([], None) []"

definition remote_tags_fail :: Remote where
  "remote_tags_fail = example_remote ([], Some (Error ''tags unavailable'')) []"

section \<open>Properties of the ordering policy\<close>

text \<open>
  C5. For images \<open>A = imgs ! i\<close> and \<open>B = imgs ! j\<close> of a slice: if \<open>A\<close> has no creation
  time, \<open>A\<close> is ordered before \<open>B\<close>; otherwise, if \<open>B\<close> has none, \<open>B\<close> is ordered before
  \<open>A\<close> (and \<open>A\<close> not before \<open>B\<close>); otherwise, if the times are equal, the full names
  decide, ascending; otherwise the image with the later time is ordered first.
\<close>

theorem Less_policy:
  assumes "i < length imgs" and "j < length imgs"
  shows "(CreatedAt (imgs ! i) = None \<longrightarrow> Less imgs i j = Some True)
       \<and> (CreatedAt (imgs ! i) \<noteq> None \<and> CreatedAt (imgs ! j) = None \<longrightarrow>
            Less imgs i j = Some False \<and> Less imgs j i = Some True)
       \<and> (\<forall>ti tj. CreatedAt (imgs ! i) = Some ti \<and> CreatedAt (imgs ! j) = Some tj \<longrightarrow>
            Less imgs i j =
              Some (if ti = tj then FullName (imgs ! i) < FullName (imgs ! j) else tj < ti))"
  using assms by (auto simp: Less_def Equal_def After_def String_Image_def)

theorem Less_policy_witness:
  "Less [\<lparr>Digest = ''d0'', CreatedAt = None, FullName = ''z''\<rparr>,
         \<lparr>Digest = ''d1'', CreatedAt = Some 5, FullName = ''a''\<rparr>,
         \<lparr>Digest = ''d2'', CreatedAt = Some 5, FullName = ''b''\<rparr>,
         \<lparr>Digest = ''d3'', CreatedAt = Some 9, FullName = ''c''\<rparr>] 1 2 = Some True
   \<and> Less [\<lparr>Digest = ''d0'', CreatedAt = None, FullName = ''z''\<rparr>,
         \<lparr>Digest = ''d1'', CreatedAt = Some 5, FullName = ''a''\<rparr>,
         \<lparr>Digest = ''d2'', CreatedAt = Some 5, FullName = ''b''\<rparr>,
         \<lparr>Digest = ''d3'', CreatedAt = Some 9, FullName = ''c''\<rparr>] 3 1 = Some True
   \<and> Less [\<lparr>Digest = ''d0'', CreatedAt = None, FullName = ''z''\<rparr>,
         \<lparr>Digest = ''d1'', CreatedAt = Some 5, FullName = ''a''\<rparr>,
         \<lparr>Digest = ''d2'', CreatedAt = Some 5, FullName = ''b''\<rparr>,
         \<lparr>Digest = ''d3'', CreatedAt = Some 9, FullName = ''c''\<rparr>] 0 3 = Some True
   \<and> Less [\<lparr>Digest = ''d0'', CreatedAt = None, FullName = ''z''\<rparr>,
         \<lparr>Digest = ''d1'', CreatedAt = Some 5, FullName = ''a''\<rparr>,
         \<lparr>Digest = ''d2'', CreatedAt = Some 5, FullName = ''b''\<rparr>,
         \<lparr>Digest = ''d3'', CreatedAt = Some 9, FullName = ''c''\<rparr>] 3 0 = Some False"
  using
    Less_policy [of 1 "[\<lparr>Digest = ''d0'', CreatedAt = None, FullName = ''z''\<rparr>,
         \<lparr>Digest = ''d1'', CreatedAt = Some 5, FullName = ''a''\<rparr>,
         \<lparr>Digest = ''d2'', CreatedAt = Some 5, FullName = ''b''\<rparr>,
         \<lparr>Digest = ''d3'', CreatedAt = Some 9, FullName = ''c''\<rparr>]" 2]
    Less_policy [of 3 "[\<lparr>Digest = ''d0'', CreatedAt = None, FullName = ''z''\<rparr>,
         \<lparr>Digest = ''d1'', CreatedAt = Some 5, FullName = ''a''\<rparr>,
         \<lparr>Digest = ''d2'', CreatedAt = Some 5, FullName = ''b''\<rparr>,
         \<lparr>Digest = ''d3'', CreatedAt = Some 9, FullName = ''c''\<rparr>]" 1]
    Less_policy [of 0 "[\<lparr>Digest = ''d0'', CreatedAt = None, FullName = ''z''\<rparr>,
         \<lparr>Digest = ''d1'', CreatedAt = Some 5, FullName = ''a''\<rparr>,
         \<lparr>Digest = ''d2'', CreatedAt = Some 5, FullName = ''b''\<rparr>,
         \<lparr>Digest = ''d3'', CreatedAt = Some 9, FullName = ''c''\<rparr>]" 3]
    Less_policy [of 3 "[\<lparr>Digest = ''d0'', CreatedAt = None, FullName = ''z''\<rparr>,
         \<lparr>Digest = ''d1'', CreatedAt = Some 5, FullName = ''a''\<rparr>,
         \<lparr>Digest = ''d2'', CreatedAt = Some 5, FullName = ''b''\<rparr>,
         \<lparr>Digest = ''d3'', CreatedAt = Some 9, FullName = ''c''\<rparr>]" 0]
  by simp

text \<open>
  C6. The comparison is not a strict order: two images of a slice that both lack a
  creation time are each ordered before the other (and such an image is ordered
  before itself).
\<close>

theorem Less_not_asymmetric:
  assumes "i < length imgs" and "j < length imgs"
    and "CreatedAt (imgs ! i) = None" and "CreatedAt (imgs ! j) = None"
  shows "Less imgs i j = Some True \<and> Less imgs j i = Some True"
  using assms by (simp add: Less_def)

theorem Less_not_asymmetric_witness:
  "Less [\<lparr>Digest = ''d0'', CreatedAt = None, FullName = ''a''\<rparr>,
         \<lparr>Digest = ''d1'', CreatedAt = None, FullName = ''b''\<rparr>] 0 1 = Some True
   \<and> Less [\<lparr>Digest = ''d0'', CreatedAt = None, FullName = ''a''\<rparr>,
         \<lparr>Digest = ''d1'', CreatedAt = None, FullName = ''b''\<rparr>] 1 0 = Some True"
  using Less_not_asymmetric [of 0 "[\<lparr>Digest = ''d0'', CreatedAt = None, FullName = ''a''\<rparr>,
         \<lparr>Digest = ''d1'', CreatedAt = None, FullName = ''b''\<rparr>]" 1]
  by simp

section \<open>Schedules\<close>

text \<open>Every schedule arranges all the goroutines, and every order has a schedule.\<close>

lemma mset_remove_nth: "k < length xs \<Longrightarrow> add_mset (xs ! k) (mset (take k xs @ drop (Suc k) xs)) = mset xs"
proof -
  assume k: "k < length xs"
  then have "xs = take k xs @ xs ! k # drop (Suc k) xs"
    by (simp add: id_take_nth_drop)
  then have "mset xs = mset (take k xs @ xs ! k # drop (Suc k) xs)"
    by simp
  then show ?thesis by simp
qed

lemma mset_arrange: "mset (arrange ps xs) = mset xs"
proof (induction ps xs rule: arrange.induct)
  case (3 p ps x xs)
  let ?k = "p mod length (x # xs)"
  have k: "?k < length (x # xs)" by simp
  have "mset (arrange (p # ps) (x # xs)) =
        add_mset ((x # xs) ! ?k) (mset (take ?k (x # xs) @ drop (Suc ?k) (x # xs)))"
    using "3.IH" [of ?k] by (simp add: Let_def del: take_Suc_Cons drop_Suc_Cons nth_Cons_Suc)
  also have "\<dots> = mset (x # xs)"
    using mset_remove_nth [OF k] .
  finally show ?case .
qed simp_all

lemma length_arrange: "length (arrange ps xs) = length xs"
  using mset_arrange [of ps xs] by (metis size_mset)

lemma set_arrange: "set (arrange ps xs) = set xs"
  using mset_arrange [of ps xs] by (metis set_mset_mset)

lemma arrange_any_order: "mset ys = mset xs \<Longrightarrow> \<exists>ps. arrange ps xs = ys"
proof (induction ys arbitrary: xs)
  case Nil
  then show ?case by simp
next
  case (Cons y ys)
  then have "y \<in> set xs" by (metis list.set_intros(1) set_mset_mset)
  then obtain k where k: "k < length xs" "xs ! k = y"
    by (auto simp: in_set_conv_nth)
  then obtain x xs' where xs: "xs = x # xs'" by (cases xs) auto
  let ?rest = "take k xs @ drop (Suc k) xs"
  have "add_mset y (mset ?rest) = mset xs"
    using mset_remove_nth [OF k(1)] k(2) by simp
  with Cons.prems have "add_mset y (mset ys) = add_mset y (mset ?rest)"
    by (simp only: mset.simps)
  then have "mset ys = mset ?rest"
    by (simp only: add_mset_add_mset_same_iff)
  then obtain ps where ps: "arrange ps ?rest = ys"
    using Cons.IH by blast
  have "arrange (k # ps) xs = y # ys"
    using k ps unfolding xs by (simp add: Let_def del: take_Suc_Cons drop_Suc_Cons nth_Cons_Suc)
  then show ?case by blast
qed

section \<open>The gather loop\<close>

text \<open>
  The defining equation of \<open>gather\<close> is used through the four cases of one step:
  the loop is over, the channel stays empty, the result received carries an error,
  or it carries an image.
\<close>

declare gather.simps [simp del]

lemma gather_done:
  "\<not> i < cap \<Longrightarrow> gather fetched cap i images tr = Some (Inr images, tr)"
  by (simp add: gather.simps)

lemma gather_blocked:
  "i < cap \<Longrightarrow> gather [] cap i images tr = None"
  by (simp add: gather.simps)

lemma gather_Cons_err:
  "i < cap \<Longrightarrow> err_res res = Some e \<Longrightarrow>
   gather ((res, evs) # rest) cap i images tr =
     Some (Inl e, tr @ evs @ [Receive] @ concat (map snd rest))"
  by (simp add: gather.simps [of "(res, evs) # rest"])

lemma gather_Cons_ok:
  "i < cap \<Longrightarrow> err_res res = None \<Longrightarrow>
   gather ((res, evs) # rest) cap i images tr =
   gather rest cap (Suc i) (images[i := image_res res]) (tr @ evs @ [Receive])"
  by (simp add: gather.simps [of "(res, evs) # rest"])

text \<open>
  When no result carries an error the loop receives them all and fills the slice in
  order of arrival; otherwise it stops at the first result that carries one.
\<close>

lemma gather_all_ok:
  assumes "\<forall>x\<in>set fetched. err_res (fst x) = None"
    and "i + length fetched = cap" and "length images = cap"
  shows "gather fetched cap i images tr =
         Some (Inr (take i images @ map (\<lambda>x. image_res (fst x)) fetched),
               tr @ concat (map (\<lambda>x. snd x @ [Receive]) fetched))"
  using assms
proof (induction fetched arbitrary: i images tr)
  case Nil
  then show ?case by (simp add: gather_done)
next
  case (Cons x fetched)
  obtain res evs where x: "x = (res, evs)" by (cases x)
  have i: "i < cap" using Cons.prems(2) by simp
  have ok: "err_res res = None" using Cons.prems(1) x by simp
  have len: "i < length images" using i Cons.prems(3) by simp
  have "gather (x # fetched) cap i images tr =
        gather fetched cap (Suc i) (images[i := image_res res]) (tr @ evs @ [Receive])"
    unfolding x using i ok by (rule gather_Cons_ok)
  also have "\<dots> = Some (Inr (take (Suc i) (images[i := image_res res]) @
                              map (\<lambda>x. image_res (fst x)) fetched),
                         (tr @ evs @ [Receive]) @ concat (map (\<lambda>x. snd x @ [Receive]) fetched))"
    using Cons.prems by (intro Cons.IH) simp_all
  also have "take (Suc i) (images[i := image_res res]) = take i images @ [image_res res]"
    using len by (simp add: take_Suc_conv_app_nth)
  finally show ?case by (simp add: x)
qed

lemma gather_first_error:
  assumes "\<forall>x\<in>set oks. err_res (fst x) = None"
    and "err_res res = Some e" and "i + length oks < cap"
  shows "gather (oks @ (res, evs) # rest) cap i images tr =
         Some (Inl e, tr @ concat (map (\<lambda>x. snd x @ [Receive]) oks) @ evs @ [Receive] @
                      concat (map snd rest))"
  using assms
proof (induction oks arbitrary: i images tr)
  case Nil
  then show ?case by (simp add: gather_Cons_err)
next
  case (Cons x oks)
  obtain r evs' where x: "x = (r, evs')" by (cases x)
  have i: "i < cap" using Cons.prems(3) by simp
  have ok: "err_res r = None" using Cons.prems(1) x by simp
  have "gather ((x # oks) @ (res, evs) # rest) cap i images tr =
        gather (oks @ (res, evs) # rest) cap (Suc i) (images[i := image_res r])
          (tr @ evs' @ [Receive])"
    unfolding x using gather_Cons_ok [OF i ok] by simp
  also have "\<dots> = Some (Inl e, (tr @ evs' @ [Receive]) @
                        concat (map (\<lambda>x. snd x @ [Receive]) oks) @ evs @ [Receive] @
                        concat (map snd rest))"
    using Cons.prems by (intro Cons.IH) simp_all
  finally show ?case by (simp add: x)
qed

section \<open>Traces\<close>

lemma manifest_calls_append: "manifest_calls (xs @ ys) = manifest_calls xs @ manifest_calls ys"
  by (induction xs rule: manifest_calls.induct) simp_all

lemma dispatched_append: "dispatched (xs @ ys) = dispatched xs @ dispatched ys"
  by (induction xs rule: dispatched.induct) simp_all

lemma manifest_calls_Go: "manifest_calls (map Go ts) = []"
  by (induction ts) simp_all

lemma dispatched_Go: "dispatched (map Go ts) = ts"
  by (induction ts) simp_all

lemma count_list_Go: "count_list (map Go ts) Receive = 0" "count_list (map Go ts) CallCancel = 0"
  by (induction ts) simp_all

lemma received_simps:
  "received r [] = []"
  "received r (t # ts) = CallManifest r t # Receive # received r ts"
  by (simp_all add: received_def)

lemma manifest_calls_received: "manifest_calls (received r ts) = ts"
  by (induction ts) (simp_all add: received_simps)

lemma dispatched_received: "dispatched (received r ts) = []"
  by (induction ts) (simp_all add: received_simps)

lemma count_list_received:
  "count_list (received r ts) Receive = length ts" "count_list (received r ts) CallCancel = 0"
  by (induction ts) (simp_all add: received_simps)

section \<open>The fan-out\<close>

lemma unreceived_simps:
  "unreceived remote r [] = []"
  "unreceived remote r (t # ts) =
     CallManifest r t #
     (case snd (Manifest remote r t) of None \<Rightarrow> [] | Some e \<Rightarrow> [CallLog e]) @
     unreceived remote r ts"
  by (simp_all add: unreceived_def fetch_def split: prod.splits)

lemma manifest_calls_unreceived: "manifest_calls (unreceived remote r ts) = ts"
  by (induction ts) (simp_all add: unreceived_simps split: option.splits)

lemma dispatched_unreceived: "dispatched (unreceived remote r ts) = []"
  by (induction ts) (simp_all add: unreceived_simps split: option.splits)

lemma count_list_unreceived:
  "count_list (unreceived remote r ts) Receive = 0"
  "count_list (unreceived remote r ts) CallCancel = 0"
  by (induction ts) (simp_all add: unreceived_simps split: option.splits)

lemma fetch_ok:
  "snd (Manifest remote repository t) = None \<Longrightarrow>
   fetch remote repository t =
     (\<lparr>image_res = fst (Manifest remote repository t), err_res = None\<rparr>,
      [CallManifest repository t])"
  by (cases "Manifest remote repository t") (simp add: fetch_def)

lemma fetch_err:
  "snd (Manifest remote repository t) = Some e \<Longrightarrow>
   fetch remote repository t =
     (\<lparr>image_res = fst (Manifest remote repository t), err_res = Some e\<rparr>,
      [CallManifest repository t, CallLog e])"
  by (cases "Manifest remote repository t") (simp add: fetch_def)

lemma received_fetch:
  "\<forall>t\<in>set ts. snd (Manifest remote repository t) = None \<Longrightarrow>
   concat (map (\<lambda>x. snd x @ [Receive]) (map (fetch remote repository) ts)) = received repository ts"
  by (induction ts) (simp_all add: received_simps fetch_ok)

lemma images_fetch:
  "map (\<lambda>x. image_res (fst x)) (map (fetch remote repository) ts) =
   map (\<lambda>t. fst (Manifest remote repository t)) ts"
  by (simp add: fetch_def split: prod.splits)

lemma tagsToRepository_all_ok:
  assumes "\<forall>t\<in>set tags. snd (Manifest remote repository t) = None"
  shows "tagsToRepository sort_Sort picks remote repository tags =
         Some ((sort_Sort Less (map (\<lambda>t. fst (Manifest remote repository t)) (arrange picks tags)),
                None),
               map Go tags @ received repository (arrange picks tags) @ [CallCancel])"
proof -
  let ?ts = "arrange picks tags"
  let ?fetched = "map (fetch remote repository) ?ts"
  have ok: "\<forall>t\<in>set ?ts. snd (Manifest remote repository t) = None"
    using assms by (simp add: set_arrange)
  then have "\<forall>x\<in>set ?fetched. err_res (fst x) = None"
    by (simp add: fetch_ok)
  moreover have "0 + length ?fetched = length tags"
    by (simp add: length_arrange)
  moreover have "length (replicate (length tags) zero_Image) = length tags"
    by simp
  ultimately have "gather ?fetched (length tags) 0 (replicate (length tags) zero_Image) (map Go tags) =
      Some (Inr (take 0 (replicate (length tags) zero_Image) @ map (\<lambda>x. image_res (fst x)) ?fetched),
            map Go tags @ concat (map (\<lambda>x. snd x @ [Receive]) ?fetched))"
    by (rule gather_all_ok)
  then show ?thesis
    using received_fetch [OF ok]
    by (simp add: tagsToRepository_def Let_def images_fetch del: map_map)
qed

lemma tagsToRepository_first_error:
  assumes "arrange picks tags = oks @ t0 # rest"
    and "\<forall>t\<in>set oks. snd (Manifest remote repository t) = None"
    and "snd (Manifest remote repository t0) = Some e"
  shows "tagsToRepository sort_Sort picks remote repository tags =
         Some (([], Some e),
               map Go tags @ received repository oks @
               [CallManifest repository t0, CallLog e, Receive] @
               unreceived remote repository rest @ [CallCancel])"
proof -
  let ?f = "fetch remote repository"
  let ?res = "\<lparr>image_res = fst (Manifest remote repository t0), err_res = Some e\<rparr>"
  let ?evs = "[CallManifest repository t0, CallLog e]"
  have fetched: "map ?f (arrange picks tags) = map ?f oks @ (?res, ?evs) # map ?f rest"
    using assms(1) fetch_err [OF assms(3)] by simp
  have "\<forall>x\<in>set (map ?f oks). err_res (fst x) = None"
    using assms(2) by (simp add: fetch_ok)
  moreover have "err_res ?res = Some e" by simp
  moreover have "0 + length (map ?f oks) < length tags"
    using arg_cong [OF assms(1), of length] by (simp add: length_arrange)
  ultimately have "gather (map ?f oks @ (?res, ?evs) # map ?f rest) (length tags) 0
        (replicate (length tags) zero_Image) (map Go tags) =
      Some (Inl e, map Go tags @ concat (map (\<lambda>x. snd x @ [Receive]) (map ?f oks)) @ ?evs @ [Receive] @
                   concat (map snd (map ?f rest)))"
    by (rule gather_first_error)
  moreover have "concat (map snd (map ?f rest)) = unreceived remote repository rest"
    by (simp add: unreceived_def comp_def)
  ultimately show ?thesis
    using received_fetch [OF assms(2)] fetched
    by (simp add: tagsToRepository_def Let_def del: map_map)
qed

lemma first_failure:
  assumes "\<exists>t\<in>set ts. P t"
  shows "\<exists>t rest. ts = takeWhile (\<lambda>t. \<not> P t) ts @ t # rest \<and> P t \<and> find P ts = Some t"
  using assms
proof (induction ts)
  case Nil
  then show ?case by simp
next
  case (Cons a ts)
  then show ?case by (cases "P a") auto
qed

lemma Manifest_instrumented [simp]: "Manifest (NewInstrumentedRemote rem) = Manifest rem"
  by (simp add: NewInstrumentedRemote_def)

lemma Tags_instrumented [simp]: "Tags (NewInstrumentedRemote rem) = Tags rem"
  by (simp add: NewInstrumentedRemote_def)

lemma unreceived_instrumented:
  "unreceived (NewInstrumentedRemote rem) r ts = unreceived rem r ts"
  by (simp add: unreceived_def fetch_def)

lemma GetRepository_fanout:
  assumes "CreateFor (factory reg) (Host img) = (rem, None)" and "Tags rem img = (tags, None)"
  shows "GetRepository sort_Sort picks reg img =
         (case tagsToRepository sort_Sort picks (NewInstrumentedRemote rem) img tags of
            None \<Rightarrow> None
          | Some (ret, tr) \<Rightarrow> Some (ret, CallCreateFor (Host img) # CallTags img # tr))"
  using assms by (simp add: GetRepository_def newRemote_def split: option.splits)

lemma GetRepository_all_ok:
  assumes "CreateFor (factory reg) (Host img) = (rem, None)" and "Tags rem img = (tags, None)"
    and "\<forall>t\<in>set tags. snd (Manifest rem img t) = None"
  shows "GetRepository sort_Sort picks reg img =
         Some ((sort_Sort Less (map (\<lambda>t. fst (Manifest rem img t)) (arrange picks tags)), None),
               CallCreateFor (Host img) # CallTags img # map Go tags @
               received img (arrange picks tags) @ [CallCancel])"
  using assms(3)
  by (simp add: GetRepository_fanout [OF assms(1,2)] tagsToRepository_all_ok)

lemma GetRepository_some_error:
  assumes "CreateFor (factory reg) (Host img) = (rem, None)" and "Tags rem img = (tags, None)"
    and "\<exists>t\<in>set tags. snd (Manifest rem img t) \<noteq> None"
  shows "\<exists>t0 e rest.
           arrange picks tags =
             takeWhile (\<lambda>t. snd (Manifest rem img t) = None) (arrange picks tags) @ t0 # rest
         \<and> find (\<lambda>t. snd (Manifest rem img t) \<noteq> None) (arrange picks tags) = Some t0
         \<and> snd (Manifest rem img t0) = Some e
         \<and> GetRepository sort_Sort picks reg img =
             Some (([], Some e),
               CallCreateFor (Host img) # CallTags img # map Go tags @
               received img (takeWhile (\<lambda>t. snd (Manifest rem img t) = None) (arrange picks tags)) @
               [CallManifest img t0, CallLog e, Receive] @ unreceived rem img rest @ [CallCancel])"
proof -
  let ?ok = "\<lambda>t. snd (Manifest rem img t) = None"
  let ?ts = "arrange picks tags"
  have "\<exists>t\<in>set ?ts. snd (Manifest rem img t) \<noteq> None"
    using assms(3) by (simp add: set_arrange)
  from first_failure [OF this]
  obtain t0 rest where split: "?ts = takeWhile ?ok ?ts @ t0 # rest"
    and bad: "snd (Manifest rem img t0) \<noteq> None"
    and found: "find (\<lambda>t. snd (Manifest rem img t) \<noteq> None) ?ts = Some t0"
    by auto
  from bad obtain e where e: "snd (Manifest rem img t0) = Some e" by auto
  have oks: "\<forall>t\<in>set (takeWhile ?ok ?ts). snd (Manifest (NewInstrumentedRemote rem) img t) = None"
    by (auto dest: set_takeWhileD)
  have e': "snd (Manifest (NewInstrumentedRemote rem) img t0) = Some e"
    using e by simp
  have "GetRepository sort_Sort picks reg img =
          Some (([], Some e),
            CallCreateFor (Host img) # CallTags img # map Go tags @ received img (takeWhile ?ok ?ts) @
            [CallManifest img t0, CallLog e, Receive] @ unreceived rem img rest @ [CallCancel])"
    by (simp add: GetRepository_fanout [OF assms(1,2)]
        tagsToRepository_first_error [OF split oks e'] unreceived_instrumented)
  with split found e show ?thesis by blast
qed

section \<open>The example inputs\<close>

lemma mset_insert_by: "mset (insert_by lt x xs) = add_mset x (mset xs)"
  by (induction xs) simp_all

lemma sorts_by_swaps_insertion_sort: "sorts_by_swaps insertion_sort"
proof -
  have "mset (foldr (insert_by lt) xs []) = mset xs" for lt xs
    by (induction xs) (simp_all add: mset_insert_by)
  then show ?thesis by (simp add: sorts_by_swaps_def insertion_sort_def)
qed

lemmas example_defs =
  example_registry_def example_remote_def example_repository_def example_image_def
  remote_ok_def remote_v1_fails_def remote_all_fail_def remote_no_tags_def remote_tags_fail_def

section \<open>Properties of the listing and of the single lookup\<close>

text \<open>
  C1, as amended. When the remote is acquired, the tags are listed and at least one
  manifest fetch fails, \<^verbatim>\<open>GetRepository\<close> returns under every schedule, and the
  gather loop has then received the results in order of arrival up to and including
  the first that carries an error, and no more: one more than the number of
  successful results that arrived before it, which is at most \<^verbatim>\<open>len(tags)\<close>. All
  \<^verbatim>\<open>len(tags)\<close> fetches were dispatched. \<^verbatim>\<open>Cancel\<close> is called once, as the last
  event, after these receives: the results that arrive later are never received.
\<close>

theorem GetRepository_returns_at_first_error:
  assumes "CreateFor (factory reg) (Host img) = (rem, None)" and "Tags rem img = (tags, None)"
    and "\<exists>t\<in>set tags. snd (Manifest rem img t) \<noteq> None"
  shows "\<exists>ret tr. GetRepository sort_Sort picks reg img = Some (ret, tr @ [CallCancel])
         \<and> CallCancel \<notin> set tr
         \<and> dispatched tr = tags
         \<and> count_list tr Receive =
             Suc (length (takeWhile (\<lambda>t. snd (Manifest rem img t) = None) (arrange picks tags)))
         \<and> count_list tr Receive \<le> length tags"
proof -
  let ?ok = "\<lambda>t. snd (Manifest rem img t) = None"
  let ?ts = "arrange picks tags"
  let ?oks = "takeWhile ?ok ?ts"
  from GetRepository_some_error [OF assms, where picks = picks and sort_Sort = sort_Sort]
  obtain t0 e rest where split: "?ts = ?oks @ t0 # rest"
    and ret: "GetRepository sort_Sort picks reg img =
       Some (([], Some e),
         (CallCreateFor (Host img) # CallTags img # map Go tags @ received img ?oks @
          [CallManifest img t0, CallLog e, Receive] @ unreceived rem img rest) @ [CallCancel])"
    by auto
  let ?tr = "CallCreateFor (Host img) # CallTags img # map Go tags @ received img ?oks @
          [CallManifest img t0, CallLog e, Receive] @ unreceived rem img rest"
  have "count_list ?tr CallCancel = 0"
    by (simp add: count_list_Go count_list_received count_list_unreceived)
  then have no_cancel: "CallCancel \<notin> set ?tr"
    by (rule iffD1 [OF count_list_0_iff])
  have disp: "dispatched ?tr = tags"
    by (simp add: dispatched_append dispatched_Go dispatched_received dispatched_unreceived)
  have recv: "count_list ?tr Receive = Suc (length ?oks)"
    by (simp add: count_list_Go count_list_received count_list_unreceived)
  have "length ?ts = length ?oks + Suc (length rest)"
    using arg_cong [OF split, of length] by simp
  then have le: "Suc (length ?oks) \<le> length tags"
    by (simp add: length_arrange)
  show ?thesis
    using ret no_cancel disp recv le by (metis (no_types, lifting))
qed

theorem GetRepository_returns_at_first_error_witness:
  "CreateFor (factory (example_registry remote_v1_fails None)) (Host example_repository) =
     (remote_v1_fails, None)
   \<and> Tags remote_v1_fails example_repository = ([''v1'', ''latest''], None)
   \<and> snd (Manifest remote_v1_fails example_repository ''v1'') = Some (Error ''no manifest for v1'')
   \<and> snd (Manifest remote_v1_fails example_repository ''latest'') = None
   \<and> (\<exists>ret tr.
         GetRepository insertion_sort [1] (example_registry remote_v1_fails None) example_repository =
           Some (ret, tr @ [CallCancel])
         \<and> CallCancel \<notin> set tr
         \<and> dispatched tr = [''v1'', ''latest'']
         \<and> count_list tr Receive = 2)
   \<and> (\<exists>ret tr.
         GetRepository insertion_sort [0] (example_registry remote_v1_fails None) example_repository =
           Some (ret, tr @ [CallCancel])
         \<and> CallCancel \<notin> set tr
         \<and> dispatched tr = [''v1'', ''latest'']
         \<and> count_list tr Receive = 1)"
proof -
  have h1: "CreateFor (factory (example_registry remote_v1_fails None)) (Host example_repository) =
     (remote_v1_fails, None)"
    by (simp add: example_registry_def)
  have h2: "Tags remote_v1_fails example_repository = ([''v1'', ''latest''], None)"
    by (simp add: remote_v1_fails_def example_remote_def)
  have m1: "snd (Manifest remote_v1_fails example_repository ''v1'') = Some (Error ''no manifest for v1'')"
    by (simp add: remote_v1_fails_def example_remote_def)
  have m2: "snd (Manifest remote_v1_fails example_repository ''latest'') = None"
    by (simp add: remote_v1_fails_def example_remote_def)
  have h3: "\<exists>t\<in>set [''v1'', ''latest'']. snd (Manifest remote_v1_fails example_repository t) \<noteq> None"
    using m1 by simp
  have a1: "arrange [1] [''v1'', ''latest''] = [''latest'', ''v1'']" by simp
  have a0: "arrange [0] [''v1'', ''latest''] = [''v1'', ''latest'']" by simp
  from GetRepository_returns_at_first_error [OF h1 h2 h3, where sort_Sort = insertion_sort and picks = "[1]"]
  obtain ret tr where
    r: "GetRepository insertion_sort [1] (example_registry remote_v1_fails None) example_repository =
          Some (ret, tr @ [CallCancel])"
    and c: "CallCancel \<notin> set tr" and d: "dispatched tr = [''v1'', ''latest'']"
    and n: "count_list tr Receive =
          Suc (length (takeWhile (\<lambda>t. snd (Manifest remote_v1_fails example_repository t) = None)
            (arrange [1] [''v1'', ''latest''])))"
    by blast
  have n': "count_list tr Receive = 2"
    using n m1 m2 unfolding a1 by simp
  from GetRepository_returns_at_first_error [OF h1 h2 h3, where sort_Sort = insertion_sort and picks = "[0]"]
  obtain ret0 tr0 where
    r0: "GetRepository insertion_sort [0] (example_registry remote_v1_fails None) example_repository =
          Some (ret0, tr0 @ [CallCancel])"
    and c0: "CallCancel \<notin> set tr0" and d0: "dispatched tr0 = [''v1'', ''latest'']"
    and n0: "count_list tr0 Receive =
          Suc (length (takeWhile (\<lambda>t. snd (Manifest remote_v1_fails example_repository t) = None)
            (arrange [0] [''v1'', ''latest''])))"
    by blast
  have n0': "count_list tr0 Receive = 1"
    using n0 m1 unfolding a0 by simp
  show ?thesis
    using h1 h2 m1 m2 r c d n' r0 c0 d0 n0' by blast
qed

text \<open>
  C1, as stated, fails: with the tags \<open>v1\<close> and \<open>latest\<close>, the fetch of \<open>v1\<close> failing
  and its result arriving first, two fetches are dispatched and both call
  \<^verbatim>\<open>Manifest\<close>, one result is received, and \<^verbatim>\<open>Cancel\<close> follows; the result of
  \<open>latest\<close> is never received.
\<close>

theorem gather_leaves_fetch_unawaited:
  "snd (Manifest remote_v1_fails example_repository ''v1'') = Some (Error ''no manifest for v1'')
   \<and> GetRepository insertion_sort [] (example_registry remote_v1_fails None) example_repository =
       Some (([], Some (Error ''no manifest for v1'')),
             [CallCreateFor ''quay.io'', CallTags example_repository, Go ''v1'', Go ''latest'',
              CallManifest example_repository ''v1'', CallLog (Error ''no manifest for v1''),
              Receive, CallManifest example_repository ''latest'', CallCancel])
   \<and> dispatched [CallCreateFor ''quay.io'', CallTags example_repository, Go ''v1'', Go ''latest'',
              CallManifest example_repository ''v1'', CallLog (Error ''no manifest for v1''),
              Receive, CallManifest example_repository ''latest'', CallCancel] = [''v1'', ''latest'']
   \<and> count_list [CallCreateFor ''quay.io'', CallTags example_repository, Go ''v1'', Go ''latest'',
              CallManifest example_repository ''v1'', CallLog (Error ''no manifest for v1''),
              Receive, CallManifest example_repository ''latest'', CallCancel] Receive = 1
   \<and> manifest_calls [CallCreateFor ''quay.io'', CallTags example_repository, Go ''v1'', Go ''latest'',
              CallManifest example_repository ''v1'', CallLog (Error ''no manifest for v1''),
              Receive, CallManifest example_repository ''latest'', CallCancel] = [''v1'', ''latest'']
   \<and> length (fst (Tags remote_v1_fails example_repository)) = 2"
  by (simp add: example_defs GetRepository_def newRemote_def NewInstrumentedRemote_def
      tagsToRepository_def fetch_def gather.simps)

text \<open>
  C2. When the remote is acquired, \<^verbatim>\<open>GetRepository\<close> returns under every schedule
  and \<^verbatim>\<open>Cancel\<close> is called exactly once, as the last event, whether the tag listing
  fails, a manifest fetch fails, or all succeed.
\<close>

theorem GetRepository_Cancel_once:
  assumes "CreateFor (factory reg) (Host img) = (rem, None)"
  shows "\<exists>ret tr. GetRepository sort_Sort picks reg img = Some (ret, tr @ [CallCancel])
           \<and> count_list (tr @ [CallCancel]) CallCancel = 1"
proof -
  obtain tags terr where tags: "Tags rem img = (tags, terr)" by (cases "Tags rem img")
  show ?thesis
  proof (cases terr)
    case (Some e)
    then have "GetRepository sort_Sort picks reg img =
        Some (([], Some e), [CallCreateFor (Host img), CallTags img] @ [CallCancel])"
      using assms tags by (simp add: GetRepository_def newRemote_def)
    moreover have "count_list ([CallCreateFor (Host img), CallTags img] @ [CallCancel]) CallCancel = 1"
      by simp
    ultimately show ?thesis by blast
  next
    case None
    with tags have tags: "Tags rem img = (tags, None)" by simp
    show ?thesis
    proof (cases "\<exists>t\<in>set tags. snd (Manifest rem img t) \<noteq> None")
      case True
      from GetRepository_some_error [OF assms tags True, where picks = picks and sort_Sort = sort_Sort]
      obtain t0 e oks rest where
        "GetRepository sort_Sort picks reg img =
           Some (([], Some e),
             (CallCreateFor (Host img) # CallTags img # map Go tags @ received img oks @
              [CallManifest img t0, CallLog e, Receive] @ unreceived rem img rest) @ [CallCancel])"
        by auto
      moreover have "count_list ((CallCreateFor (Host img) # CallTags img # map Go tags @
          received img oks @ [CallManifest img t0, CallLog e, Receive] @ unreceived rem img rest) @
          [CallCancel]) CallCancel = 1"
        by (simp add: count_list_Go count_list_received count_list_unreceived)
      ultimately show ?thesis by blast
    next
      case False
      then have "GetRepository sort_Sort picks reg img =
         Some ((sort_Sort Less (map (\<lambda>t. fst (Manifest rem img t)) (arrange picks tags)), None),
               (CallCreateFor (Host img) # CallTags img # map Go tags @
               received img (arrange picks tags)) @ [CallCancel])"
        using GetRepository_all_ok [OF assms tags, where picks = picks and sort_Sort = sort_Sort] by simp
      moreover have "count_list ((CallCreateFor (Host img) # CallTags img # map Go tags @
               received img (arrange picks tags)) @ [CallCancel]) CallCancel = 1"
        by (simp add: count_list_Go count_list_received)
      ultimately show ?thesis by blast
    qed
  qed
qed

theorem GetRepository_Cancel_once_witness:
  "CreateFor (factory (example_registry remote_ok None)) (Host example_repository) = (remote_ok, None)
   \<and> CreateFor (factory (example_registry remote_v1_fails None)) (Host example_repository) =
       (remote_v1_fails, None)
   \<and> CreateFor (factory (example_registry remote_tags_fail None)) (Host example_repository) =
       (remote_tags_fail, None)
   \<and> (\<exists>ret tr. GetRepository insertion_sort [1] (example_registry remote_ok None) example_repository =
         Some (ret, tr @ [CallCancel]) \<and> count_list (tr @ [CallCancel]) CallCancel = 1)
   \<and> (\<exists>ret tr. GetRepository insertion_sort [1] (example_registry remote_v1_fails None) example_repository =
         Some (ret, tr @ [CallCancel]) \<and> count_list (tr @ [CallCancel]) CallCancel = 1)
   \<and> (\<exists>ret tr. GetRepository insertion_sort [1] (example_registry remote_tags_fail None) example_repository =
         Some (ret, tr @ [CallCancel]) \<and> count_list (tr @ [CallCancel]) CallCancel = 1)"
proof -
  have h1: "CreateFor (factory (example_registry remote_ok None)) (Host example_repository) =
      (remote_ok, None)"
    by (simp add: example_registry_def)
  have h2: "CreateFor (factory (example_registry remote_v1_fails None)) (Host example_repository) =
      (remote_v1_fails, None)"
    by (simp add: example_registry_def)
  have h3: "CreateFor (factory (example_registry remote_tags_fail None)) (Host example_repository) =
      (remote_tags_fail, None)"
    by (simp add: example_registry_def)
  show ?thesis
    using h1 h2 h3
      GetRepository_Cancel_once [OF h1, where sort_Sort = insertion_sort and picks = "[1]"]
      GetRepository_Cancel_once [OF h2, where sort_Sort = insertion_sort and picks = "[1]"]
      GetRepository_Cancel_once [OF h3, where sort_Sort = insertion_sort and picks = "[1]"]
    by (intro conjI) assumption+
qed

text \<open>
  C3. When a manifest fetch fails, \<^verbatim>\<open>GetRepository\<close> returns no images and the error
  of the first failing fetch in order of arrival, which need not be the first tag
  dispatched.
\<close>

theorem GetRepository_first_error:
  assumes "CreateFor (factory reg) (Host img) = (rem, None)" and "Tags rem img = (tags, None)"
    and "\<exists>t\<in>set tags. snd (Manifest rem img t) \<noteq> None"
  shows "\<exists>t e tr.
           find (\<lambda>t. snd (Manifest rem img t) \<noteq> None) (arrange picks tags) = Some t
         \<and> snd (Manifest rem img t) = Some e
         \<and> GetRepository sort_Sort picks reg img = Some (([], Some e), tr)"
  using GetRepository_some_error [OF assms, where picks = picks and sort_Sort = sort_Sort] by blast

theorem GetRepository_first_error_witness:
  "CreateFor (factory (example_registry remote_all_fail None)) (Host example_repository) =
     (remote_all_fail, None)
   \<and> Tags remote_all_fail example_repository = ([''v1'', ''latest''], None)
   \<and> snd (Manifest remote_all_fail example_repository ''v1'') = Some (Error ''no manifest for v1'')
   \<and> arrange [1] [''v1'', ''latest''] = [''latest'', ''v1'']
   \<and> (\<exists>tr. GetRepository insertion_sort [1] (example_registry remote_all_fail None) example_repository =
         Some (([], Some (Error ''no manifest for latest'')), tr))"
proof -
  have h1: "CreateFor (factory (example_registry remote_all_fail None)) (Host example_repository) =
     (remote_all_fail, None)"
    by (simp add: example_registry_def)
  have h2: "Tags remote_all_fail example_repository = ([''v1'', ''latest''], None)"
    by (simp add: remote_all_fail_def example_remote_def)
  have m: "snd (Manifest remote_all_fail example_repository ''v1'') = Some (Error ''no manifest for v1'')"
    by (simp add: remote_all_fail_def example_remote_def)
  then have h3: "\<exists>t\<in>set [''v1'', ''latest'']. snd (Manifest remote_all_fail example_repository t) \<noteq> None"
    by simp
  have arr: "arrange [1] [''v1'', ''latest''] = [''latest'', ''v1'']"
    by simp
  from GetRepository_first_error [OF h1 h2 h3, where sort_Sort = insertion_sort and picks = "[1]"]
  obtain t e tr where
    found: "find (\<lambda>t. snd (Manifest remote_all_fail example_repository t) \<noteq> None)
              (arrange [1] [''v1'', ''latest'']) = Some t"
    and e: "snd (Manifest remote_all_fail example_repository t) = Some e"
    and ret: "GetRepository insertion_sort [1] (example_registry remote_all_fail None) example_repository =
         Some (([], Some e), tr)"
    by blast
  from found have "t = ''latest''"
    by (simp add: remote_all_fail_def example_remote_def)
  with e have "e = Error ''no manifest for latest''"
    by (simp add: remote_all_fail_def example_remote_def)
  with ret h1 h2 m arr show ?thesis by blast
qed

text \<open>
  C4. When the tag listing returns \<open>N\<close> tags and every manifest fetch succeeds,
  \<^verbatim>\<open>GetRepository\<close> returns \<open>N\<close> images, the image of each tag once, and \<^verbatim>\<open>Manifest\<close>
  has been called \<open>N\<close> times, once for each tag.
\<close>

theorem GetRepository_all_images:
  assumes "CreateFor (factory reg) (Host img) = (rem, None)" and "Tags rem img = (tags, None)"
    and "\<forall>t\<in>set tags. snd (Manifest rem img t) = None"
    and "sorts_by_swaps sort_Sort"
  shows "\<exists>images tr. GetRepository sort_Sort picks reg img = Some ((images, None), tr)
         \<and> length images = length tags
         \<and> mset images = mset (map (\<lambda>t. fst (Manifest rem img t)) tags)
         \<and> length (manifest_calls tr) = length tags
         \<and> mset (manifest_calls tr) = mset tags"
proof -
  let ?images = "sort_Sort Less (map (\<lambda>t. fst (Manifest rem img t)) (arrange picks tags))"
  let ?tr = "CallCreateFor (Host img) # CallTags img # map Go tags @
             received img (arrange picks tags) @ [CallCancel]"
  have ret: "GetRepository sort_Sort picks reg img = Some ((?images, None), ?tr)"
    using assms(1,2,3) by (rule GetRepository_all_ok)
  have "mset ?images = mset (map (\<lambda>t. fst (Manifest rem img t)) (arrange picks tags))"
    using assms(4) unfolding sorts_by_swaps_def by blast
  then have images: "mset ?images = mset (map (\<lambda>t. fst (Manifest rem img t)) tags)"
    by (simp add: mset_arrange)
  then have "size (mset ?images) = size (mset (map (\<lambda>t. fst (Manifest rem img t)) tags))"
    by (rule arg_cong)
  then have len: "length ?images = length tags" by simp
  have calls: "manifest_calls ?tr = arrange picks tags"
    by (simp add: manifest_calls_append manifest_calls_Go manifest_calls_received)
  show ?thesis
    using ret images len calls by (simp add: length_arrange mset_arrange)
qed

theorem GetRepository_all_images_witness:
  "CreateFor (factory (example_registry remote_ok None)) (Host example_repository) = (remote_ok, None)
   \<and> Tags remote_ok example_repository = ([''v1'', ''latest''], None)
   \<and> snd (Manifest remote_ok example_repository ''v1'') = None
   \<and> snd (Manifest remote_ok example_repository ''latest'') = None
   \<and> sorts_by_swaps insertion_sort
   \<and> (\<exists>images tr.
         GetRepository insertion_sort [1] (example_registry remote_ok None) example_repository =
           Some ((images, None), tr)
         \<and> length images = 2
         \<and> mset images = {#example_image ''v1'' 2, example_image ''latest'' 6#}
         \<and> length (manifest_calls tr) = 2
         \<and> mset (manifest_calls tr) = {#''v1'', ''latest''#})"
proof -
  have h1: "CreateFor (factory (example_registry remote_ok None)) (Host example_repository) =
      (remote_ok, None)"
    by (simp add: example_registry_def)
  have h2: "Tags remote_ok example_repository = ([''v1'', ''latest''], None)"
    by (simp add: remote_ok_def example_remote_def)
  have m1: "Manifest remote_ok example_repository ''v1'' = (example_image ''v1'' 2, None)"
    by (simp add: remote_ok_def example_remote_def)
  have m2: "Manifest remote_ok example_repository ''latest'' = (example_image ''latest'' 6, None)"
    by (simp add: remote_ok_def example_remote_def)
  have h3: "\<forall>t\<in>set [''v1'', ''latest'']. snd (Manifest remote_ok example_repository t) = None"
    using m1 m2 by simp
  from GetRepository_all_images [OF h1 h2 h3 sorts_by_swaps_insertion_sort, where picks = "[1]"]
  obtain images tr where
    ret: "GetRepository insertion_sort [1] (example_registry remote_ok None) example_repository =
            Some ((images, None), tr)"
    and len: "length images = length [''v1'', ''latest'']"
    and ims: "mset images =
            mset (map (\<lambda>t. fst (Manifest remote_ok example_repository t)) [''v1'', ''latest''])"
    and calls_len: "length (manifest_calls tr) = length [''v1'', ''latest'']"
    and calls: "mset (manifest_calls tr) = mset [''v1'', ''latest'']"
    by blast
  have "length images = 2" using len by simp
  moreover have "mset images = {#example_image ''v1'' 2, example_image ''latest'' 6#}"
    using ims m1 m2 by simp
  moreover have "length (manifest_calls tr) = 2" using calls_len by simp
  moreover have "mset (manifest_calls tr) = {#''v1'', ''latest''#}" using calls by simp
  moreover have "snd (Manifest remote_ok example_repository ''v1'') = None" using m1 by simp
  moreover have "snd (Manifest remote_ok example_repository ''latest'') = None" using m2 by simp
  ultimately show ?thesis
    using ret h1 h2 sorts_by_swaps_insertion_sort by blast
qed

text \<open>
  C7. When the tag listing fails, \<^verbatim>\<open>GetRepository\<close> returns that error, \<^verbatim>\<open>Manifest\<close> is
  never called, and \<^verbatim>\<open>Cancel\<close> is called before the return.
\<close>

theorem GetRepository_Tags_error:
  assumes "CreateFor (factory reg) (Host img) = (rem, None)"
    and "Tags rem img = (tags, Some e)"
  shows "GetRepository sort_Sort picks reg img =
           Some (([], Some e), [CallCreateFor (Host img), CallTags img, CallCancel])
       \<and> manifest_calls [CallCreateFor (Host img), CallTags img, CallCancel] = []"
  using assms by (simp add: GetRepository_def newRemote_def)

theorem GetRepository_Tags_error_witness:
  "CreateFor (factory (example_registry remote_tags_fail None)) (Host example_repository) =
     (remote_tags_fail, None)
   \<and> Tags remote_tags_fail example_repository = ([], Some (Error ''tags unavailable''))
   \<and> GetRepository insertion_sort [] (example_registry remote_tags_fail None) example_repository =
       Some (([], Some (Error ''tags unavailable'')),
             [CallCreateFor (Host example_repository), CallTags example_repository, CallCancel])"
proof -
  have h1: "CreateFor (factory (example_registry remote_tags_fail None)) (Host example_repository) =
     (remote_tags_fail, None)"
    by (simp add: example_registry_def)
  have h2: "Tags remote_tags_fail example_repository = ([], Some (Error ''tags unavailable''))"
    by (simp add: remote_tags_fail_def example_remote_def)
  show ?thesis
    using h1 h2 GetRepository_Tags_error [OF h1 h2, where sort_Sort = insertion_sort and picks = "[]"]
    by simp
qed

text \<open>
  C8. When the factory fails, \<^verbatim>\<open>GetRepository\<close> and \<^verbatim>\<open>GetImage\<close> return the factory's
  error as it is, and the only call made is \<^verbatim>\<open>CreateFor\<close>.
\<close>

theorem factory_error_unchanged:
  assumes "CreateFor (factory reg) (Host img) = (rem, Some e)"
  shows "newRemote reg img = ((rem, Some e), [CallCreateFor (Host img)])
       \<and> GetRepository sort_Sort picks reg img = Some (([], Some e), [CallCreateFor (Host img)])
       \<and> GetImage reg img tag = ((zero_Image, Some e), [CallCreateFor (Host img)])"
  using assms by (simp add: GetRepository_def GetImage_def newRemote_def)

theorem factory_error_unchanged_witness:
  "CreateFor (factory (example_registry remote_ok (Some (Error ''unknown host''))))
       (Host example_repository) = (remote_ok, Some (Error ''unknown host''))
   \<and> GetRepository insertion_sort []
       (example_registry remote_ok (Some (Error ''unknown host''))) example_repository =
       Some (([], Some (Error ''unknown host'')), [CallCreateFor (Host example_repository)])
   \<and> GetImage (example_registry remote_ok (Some (Error ''unknown host''))) example_repository ''v1'' =
       ((zero_Image, Some (Error ''unknown host'')), [CallCreateFor (Host example_repository)])"
proof -
  have h: "CreateFor (factory (example_registry remote_ok (Some (Error ''unknown host''))))
       (Host example_repository) = (remote_ok, Some (Error ''unknown host''))"
    by (simp add: example_registry_def)
  show ?thesis
    using h factory_error_unchanged [OF h, where sort_Sort = insertion_sort and picks = "[]"
        and tag = "''v1''"]
    by simp
qed

text \<open>
  C9. When the remote is acquired, \<^verbatim>\<open>GetImage\<close> returns what \<^verbatim>\<open>Manifest\<close> returns,
  image or error, and never calls \<^verbatim>\<open>Cancel\<close>.
\<close>

theorem GetImage_never_Cancel:
  assumes "CreateFor (factory reg) (Host img) = (rem, None)"
  shows "GetImage reg img tag =
           (Manifest rem img tag, [CallCreateFor (Host img), CallManifest img tag])
       \<and> CallCancel \<notin> set (snd (GetImage reg img tag))"
  using assms by (simp add: GetImage_def newRemote_def)

theorem GetImage_never_Cancel_witness:
  "CreateFor (factory (example_registry remote_v1_fails None)) (Host example_repository) =
     (remote_v1_fails, None)
   \<and> CallCancel \<notin> set (snd (GetImage (example_registry remote_v1_fails None) example_repository ''v1''))
   \<and> CallCancel \<notin> set (snd (GetImage (example_registry remote_v1_fails None) example_repository ''latest''))"
proof -
  have h: "CreateFor (factory (example_registry remote_v1_fails None)) (Host example_repository) =
     (remote_v1_fails, None)"
    by (simp add: example_registry_def)
  show ?thesis
    using h GetImage_never_Cancel [OF h, of "''v1''"] GetImage_never_Cancel [OF h, of "''latest''"]
    by simp
qed

text \<open>
  C10. When the tag listing succeeds with no tags, \<^verbatim>\<open>GetRepository\<close> succeeds with
  an empty list of images, \<^verbatim>\<open>Manifest\<close> is never called, and \<^verbatim>\<open>Cancel\<close> is called
  once.
\<close>

theorem GetRepository_no_tags:
  assumes "CreateFor (factory reg) (Host img) = (rem, None)"
    and "Tags rem img = ([], None)"
    and "sorts_by_swaps sort_Sort"
  shows "GetRepository sort_Sort picks reg img =
           Some (([], None), [CallCreateFor (Host img), CallTags img, CallCancel])
       \<and> manifest_calls [CallCreateFor (Host img), CallTags img, CallCancel] = []
       \<and> count_list [CallCreateFor (Host img), CallTags img, CallCancel] CallCancel = 1"
proof -
  have "mset (sort_Sort Less []) = mset []"
    using assms(3) unfolding sorts_by_swaps_def by blast
  then have "sort_Sort Less [] = []" by simp
  then show ?thesis
    using assms(1,2) tagsToRepository_all_ok [of "[]" "NewInstrumentedRemote rem" img sort_Sort picks]
    by (simp add: GetRepository_fanout received_simps)
qed

theorem GetRepository_no_tags_witness:
  "CreateFor (factory (example_registry remote_no_tags None)) (Host example_repository) =
     (remote_no_tags, None)
   \<and> Tags remote_no_tags example_repository = ([], None)
   \<and> sorts_by_swaps insertion_sort
   \<and> GetRepository insertion_sort [] (example_registry remote_no_tags None) example_repository =
       Some (([], None),
             [CallCreateFor (Host example_repository), CallTags example_repository, CallCancel])"
proof -
  have h1: "CreateFor (factory (example_registry remote_no_tags None)) (Host example_repository) =
     (remote_no_tags, None)"
    by (simp add: example_registry_def)
  have h2: "Tags remote_no_tags example_repository = ([], None)"
    by (simp add: remote_no_tags_def example_remote_def)
  show ?thesis
    using h1 h2 sorts_by_swaps_insertion_sort
      GetRepository_no_tags [OF h1 h2 sorts_by_swaps_insertion_sort, where picks = "[]"]
    by simp
qed

end
